theory Spec2Isabelle
  imports Complex_Main
begin

section \<open>Values exchanged with the server\<close>

text \<open>
  Every value the scripts handle comes out of \<^verbatim>\<open>json.loads\<close>: \<^verbatim>\<open>None\<close>, a bool, an int,
  a float, a str, a list or a dict. A dict is kept as the list of its items, in insertion
  order; a key is looked up with \<open>map_of\<close>. A str is the list of its characters, one
  \<open>char\<close> for each character Python counts. A float is a real number (no NaN, no
  infinity); the scripts only ask whether one is zero.
\<close>

datatype json =
    JNull
  | JBool bool
  | JInt int
  | JFloat real
  | JStr string
  | JArr "json list"
  | JObj "(string \<times> json) list"

text \<open>The exceptions the modelled statements can raise.\<close>

datatype py_error =
    AttributeError
  | TypeError
  | KeyError
  | IndexError
  | ValueError
  | UnicodeDecodeError
  | URLError

text \<open>\<^verbatim>\<open>x.get(k, d)\<close>: only a dict has the method; the default is used for a missing key only.\<close>

fun py_get :: "json \<Rightarrow> string \<Rightarrow> json \<Rightarrow> py_error + json" where
  "py_get (JObj kvs) k d = Inr (case map_of kvs k of Some v \<Rightarrow> v | None \<Rightarrow> d)"
| "py_get _ k d = Inl AttributeError"

text \<open>\<^verbatim>\<open>len(x)\<close>: defined on str, list and dict.\<close>

fun py_len :: "json \<Rightarrow> py_error + nat" where
  "py_len (JStr s) = Inr (length s)"
| "py_len (JArr xs) = Inr (length xs)"
| "py_len (JObj kvs) = Inr (length kvs)"
| "py_len _ = Inl TypeError"

text \<open>The truth value Python gives a value in \<^verbatim>\<open>x if c else y\<close>.\<close>

fun truthy :: "json \<Rightarrow> bool" where
  "truthy JNull = False"
| "truthy (JBool b) = b"
| "truthy (JInt n) = (n \<noteq> 0)"
| "truthy (JFloat r) = (r \<noteq> 0)"
| "truthy (JStr s) = (s \<noteq> [])"
| "truthy (JArr xs) = (xs \<noteq> [])"
| "truthy (JObj kvs) = (kvs \<noteq> [])"

text \<open>
  \<^verbatim>\<open>x[:n]\<close>: a str or a list is cut to its first \<open>n\<close> items; nothing else can be sliced
  (\<^verbatim>\<open>None[:n]\<close> is a TypeError; a dict raises as well, whatever its keys).
\<close>

fun py_slice_to :: "nat \<Rightarrow> json \<Rightarrow> py_error + json" where
  "py_slice_to n (JStr s) = Inr (JStr (take n s))"
| "py_slice_to n (JArr xs) = Inr (JArr (take n xs))"
| "py_slice_to n _ = Inl TypeError"

text \<open>\<^verbatim>\<open>for e in x\<close>: a list gives its items, a dict its keys, a str its characters.\<close>

fun py_iter :: "json \<Rightarrow> py_error + json list" where
  "py_iter (JArr xs) = Inr xs"
| "py_iter (JObj kvs) = Inr (map (\<lambda>kv. JStr (fst kv)) kvs)"
| "py_iter (JStr s) = Inr (map (\<lambda>c. JStr [c]) s)"
| "py_iter _ = Inl TypeError"

section \<open>fulltest.py: the WebSocket callbacks\<close>

text \<open>
  The collector's state: the list \<^verbatim>\<open>collected_events\<close> and the flag \<^verbatim>\<open>game_started\<close>
  (a \<^verbatim>\<open>threading.Event\<close>, set and never cleared).
\<close>

record collector =
  collected_events :: "json list"
  game_started :: bool

text \<open>
  \<^verbatim>\<open>
  def on_message(ws, message):
      try:
          msg = json.loads(message)
          if msg.get('type') == 'event':
              evt = msg.get('payload', {})
              collected_events.append(evt)
              etype = evt.get('event_type', '?')
              if etype == 'game.started':
                  game_started.set()
      except:
          pass
  \<close>
  \<open>loads\<close> stands for \<^verbatim>\<open>json.loads\<close>: \<open>None\<close> where it raises. The bare \<^verbatim>\<open>except\<close>
  swallows every exception, and what was appended before the exception stays appended.
\<close>

definition on_message :: "(string \<Rightarrow> json option) \<Rightarrow> collector \<Rightarrow> string \<Rightarrow> collector" where
  "on_message loads st message =
     (case loads message of
        None \<Rightarrow> st
      | Some msg \<Rightarrow>
          (case py_get msg ''type'' JNull of
             Inl ex \<Rightarrow> st
           | Inr ty \<Rightarrow>
               if ty = JStr ''event'' then
                 (case py_get msg ''payload'' (JObj []) of
                    Inl ex \<Rightarrow> st
                  | Inr evt \<Rightarrow>
                      (let st1 = st\<lparr>collected_events := collected_events st @ [evt]\<rparr> in
                       case py_get evt ''event_type'' (JStr ''?'') of
                         Inl ex \<Rightarrow> st1
                       | Inr etype \<Rightarrow>
                           if etype = JStr ''game.started''
                           then st1\<lparr>game_started := True\<rparr> else st1))
               else st))"

text \<open>The handler run on every frame of a sequence, in the order of arrival.\<close>

definition deliver_all :: "(string \<Rightarrow> json option) \<Rightarrow> collector \<Rightarrow> string list \<Rightarrow> collector" where
  "deliver_all loads st messages = foldl (on_message loads) st messages"

text \<open>
  The envelopes among the frames received (the frames that decode), the envelopes of
  kind \<^verbatim>\<open>event\<close>, and the Game Event such an envelope carries.
\<close>

definition envelopes :: "(string \<Rightarrow> json option) \<Rightarrow> string list \<Rightarrow> json list" where
  "envelopes loads messages = List.map_filter loads messages"

definition is_event_envelope :: "json \<Rightarrow> bool" where
  "is_event_envelope msg =
     (case msg of JObj kvs \<Rightarrow> map_of kvs ''type'' = Some (JStr ''event'') | _ \<Rightarrow> False)"

definition payload_of :: "json \<Rightarrow> json" where
  "payload_of msg =
     (case msg of
        JObj kvs \<Rightarrow> (case map_of kvs ''payload'' of Some p \<Rightarrow> p | None \<Rightarrow> JObj [])
      | _ \<Rightarrow> JObj [])"

subsection \<open>The clock\<close>

text \<open>
  Time is counted in milliseconds. \<^verbatim>\<open>time.sleep(d)\<close> called at \<open>now\<close> returns at
  \<open>now + d + lag now\<close>: never early, and late by what the scheduler adds. Statements other
  than \<^verbatim>\<open>time.sleep\<close> take no time. \<open>on_time\<close> is the clock that is never late.
\<close>

definition sleep :: "(int \<Rightarrow> nat) \<Rightarrow> int \<Rightarrow> int \<Rightarrow> int" where
  "sleep lag d now = now + d + int (lag now)"

definition on_time :: "int \<Rightarrow> nat" where
  "on_time now = 0"

subsection \<open>What the script sends\<close>

text \<open>
  What has gone over the connection, as the script sees it: the envelopes it sent with
  \<^verbatim>\<open>ws.send\<close> and the envelopes handed to it, oldest first.
\<close>

datatype io = Sent json | Received json

definition ws_send :: "json \<Rightarrow> io list \<Rightarrow> io list" where
  "ws_send envelope wire = wire @ [Sent envelope]"

text \<open>
  \<^verbatim>\<open>
  def on_open(ws):
      ws.send(json.dumps({"type": "subscribe",
                          "payload": {"room_id": room_id, "last_seq": 0}}))
      time.sleep(0.5)
      ws.send(json.dumps({"type": "command",
                          "payload": {"room_id": room_id, "type": "start_game"}}))
  \<close>
  The state is the clock and the connection's log.
\<close>

definition subscribe_envelope :: "json \<Rightarrow> json" where
  "subscribe_envelope rid =
     JObj [(''type'', JStr ''subscribe''),
           (''payload'', JObj [(''room_id'', rid), (''last_seq'', JInt 0)])]"

definition command_envelope :: "json \<Rightarrow> json" where
  "command_envelope rid =
     JObj [(''type'', JStr ''command''),
           (''payload'', JObj [(''room_id'', rid), (''type'', JStr ''start_game'')])]"

definition on_open :: "(int \<Rightarrow> nat) \<Rightarrow> json \<Rightarrow> int \<times> io list \<Rightarrow> int \<times> io list" where
  "on_open lag rid st =
     (let wire1 = ws_send (subscribe_envelope rid) (snd st);
          now1 = sleep lag 500 (fst st)
      in (now1, ws_send (command_envelope rid) wire1))"

text \<open>
  The rule of the specification: when a \<^verbatim>\<open>command\<close> envelope is sent, a
  \<^verbatim>\<open>subscribed\<close> envelope has been received before. The flag says whether one has been
  received so far.
\<close>

definition envelope_kind :: "json \<Rightarrow> json" where
  "envelope_kind msg = (case msg of JObj kvs \<Rightarrow> (case map_of kvs ''type'' of Some t \<Rightarrow> t | None \<Rightarrow> JNull) | _ \<Rightarrow> JNull)"

fun commands_acknowledged :: "bool \<Rightarrow> io list \<Rightarrow> bool" where
  "commands_acknowledged acked [] = True"
| "commands_acknowledged acked (Received msg # rest) =
     commands_acknowledged (acked \<or> envelope_kind msg = JStr ''subscribed'') rest"
| "commands_acknowledged acked (Sent msg # rest) =
     ((if envelope_kind msg = JStr ''command'' then acked else True)
      \<and> commands_acknowledged acked rest)"

text \<open>Whether a \<^verbatim>\<open>subscribe\<close> envelope is sent before every \<^verbatim>\<open>command\<close> envelope.\<close>

fun commands_after_subscribe :: "bool \<Rightarrow> io list \<Rightarrow> bool" where
  "commands_after_subscribe subscribed [] = True"
| "commands_after_subscribe subscribed (Received msg # rest) =
     commands_after_subscribe subscribed rest"
| "commands_after_subscribe subscribed (Sent msg # rest) =
     ((if envelope_kind msg = JStr ''command'' then subscribed else True)
      \<and> commands_after_subscribe (subscribed \<or> envelope_kind msg = JStr ''subscribe'') rest)"

section \<open>fulltest.py: the collection loop\<close>

text \<open>
  \<^verbatim>\<open>chat_count = sum(1 for e in collected_events if e.get('event_type') == 'public.chat')\<close>
  raises on the first collected event that is not a dict.
\<close>

fun chat_count_of :: "json list \<Rightarrow> py_error + nat" where
  "chat_count_of [] = Inr 0"
| "chat_count_of (e # es) =
     (case py_get e ''event_type'' JNull of
        Inl ex \<Rightarrow> Inl ex
      | Inr etype \<Rightarrow>
          (case chat_count_of es of
             Inl ex \<Rightarrow> Inl ex
           | Inr n \<Rightarrow> Inr (if etype = JStr ''public.chat'' then Suc n else n)))"

text \<open>
  The live stream is the list of the events \<^verbatim>\<open>on_message\<close> appends, each with the time
  of its append, in the order of the appends. \<open>snapshot\<close> is \<^verbatim>\<open>collected_events\<close> as the
  main thread finds it at time \<open>t\<close>.
\<close>

definition snapshot :: "(int \<times> json) list \<Rightarrow> int \<Rightarrow> json list" where
  "snapshot arrivals t = map snd (filter (\<lambda>a. fst a \<le> t) arrivals)"

definition timeout :: int where
  "timeout = 60000"

datatype stop_reason = Quorum | HardTimeout

text \<open>
  How the loop ended: by which condition, the time at which the condition was found true,
  and the time at which the loop is left (after the five seconds more, on a quorum).
\<close>

record loop_exit =
  stopped_by :: stop_reason
  noticed_at :: int
  left_at :: int

text \<open>
  \<^verbatim>\<open>
  start = time.time()
  timeout = 60
  while time.time() - start < timeout:
      time.sleep(2)
      chat_count = sum(1 for e in collected_events if e.get('event_type') == 'public.chat')
      if chat_count >= 4:
          time.sleep(5)  # collect a few more
          break
  \<close>
\<close>

function collection_loop ::
  "(int \<Rightarrow> nat) \<Rightarrow> (int \<times> json) list \<Rightarrow> int \<Rightarrow> int \<Rightarrow> py_error + loop_exit" where
  "collection_loop lag arrivals start now =
     (if now - start < timeout then
        (let woke = sleep lag 2000 now in
         case chat_count_of (snapshot arrivals woke) of
           Inl ex \<Rightarrow> Inl ex
         | Inr n \<Rightarrow>
             if 4 \<le> n
             then Inr \<lparr>stopped_by = Quorum, noticed_at = woke, left_at = sleep lag 5000 woke\<rparr>
             else collection_loop lag arrivals start woke)
      else Inr \<lparr>stopped_by = HardTimeout, noticed_at = now, left_at = now\<rparr>)"
  by pat_completeness auto
termination
  by (relation "measure (\<lambda>(lag, arrivals, start, now). nat (timeout - (now - start)))")
     (auto simp: sleep_def timeout_def)

text \<open>The loop entered at \<open>start\<close>, the reading of the clock just before it.\<close>

definition collect :: "(int \<Rightarrow> nat) \<Rightarrow> (int \<times> json) list \<Rightarrow> int \<Rightarrow> py_error + loop_exit" where
  "collect lag arrivals start = collection_loop lag arrivals start start"

text \<open>The events of the quorum type in a stream, and the times at which they arrive.\<close>

definition is_chat :: "json \<Rightarrow> bool" where
  "is_chat e = (case e of JObj kvs \<Rightarrow> map_of kvs ''event_type'' = Some (JStr ''public.chat'') | _ \<Rightarrow> False)"

definition chat_times :: "(int \<times> json) list \<Rightarrow> int list" where
  "chat_times arrivals = map fst (filter (\<lambda>a. is_chat (snd a)) arrivals)"

text \<open>A Game Event is a JSON object (section 3 of the specification).\<close>

definition is_object :: "json \<Rightarrow> bool" where
  "is_object e = (case e of JObj kvs \<Rightarrow> True | _ \<Rightarrow> False)"

section \<open>fulltest.py: choosing the event list (step 6 and the line after it)\<close>

text \<open>
  \<^verbatim>\<open>
  try:
      api_events = api('GET', f'/v1/rooms/{room_id}/events', token=token)
      print(f'[7] API returned {len(api_events)} events')
  except Exception as ex:
      print(f'[7] API fetch failed: {ex}')
      api_events = []
  \<close>
  The argument is the outcome of the call of \<^verbatim>\<open>api\<close>: \<open>Inl\<close> when \<^verbatim>\<open>urlopen\<close> or
  \<^verbatim>\<open>json.loads\<close> raised, \<open>Inr\<close> the decoded body otherwise. The \<^verbatim>\<open>len\<close> inside the
  \<^verbatim>\<open>try\<close> raises on a body that has no length, which lands in the same handler.
\<close>

definition api_events :: "py_error + json \<Rightarrow> json" where
  "api_events fetched =
     (case fetched of
        Inl ex \<Rightarrow> JArr []
      | Inr body \<Rightarrow> (case py_len body of Inl ex \<Rightarrow> JArr [] | Inr n \<Rightarrow> body))"

text \<open>\<^verbatim>\<open>events = api_events if api_events else collected_events\<close>\<close>

definition events :: "json \<Rightarrow> json list \<Rightarrow> json" where
  "events api buffer = (if truthy api then api else JArr buffer)"

text \<open>The two steps together: what the script reports on, from the fetch and the buffer.\<close>

definition reconcile :: "py_error + json \<Rightarrow> json list \<Rightarrow> json" where
  "reconcile fetched buffer = events (api_events fetched) buffer"

subsection \<open>The order the specification asks for\<close>

text \<open>
  The sequence number of an event, when it has an integer one, and the order the
  specification describes: the events that have a sequence number, ascending (a stable
  sort), then the events that have none, as they arrived.
\<close>

definition seq_of :: "json \<Rightarrow> int option" where
  "seq_of e =
     (case e of
        JObj kvs \<Rightarrow> (case map_of kvs ''seq'' of Some (JInt n) \<Rightarrow> Some n | _ \<Rightarrow> None)
      | _ \<Rightarrow> None)"

definition has_seq :: "json \<Rightarrow> bool" where
  "has_seq e = (seq_of e \<noteq> None)"

definition spec_sorted_by_seq :: "json list \<Rightarrow> json list" where
  "spec_sorted_by_seq es =
     sort_key (\<lambda>e. the (seq_of e)) (filter has_seq es) @ filter (\<lambda>e. \<not> has_seq e) es"

text \<open>How often a sequence number occurs in a list of events.\<close>

definition seq_count :: "int \<Rightarrow> json list \<Rightarrow> nat" where
  "seq_count n es = length (filter (\<lambda>e. seq_of e = Some n) es)"

section \<open>fulltest.py: the report\<close>

text \<open>
  The message of a chat entry is \<^verbatim>\<open>payload.get('message', str(payload))\<close>: the decoded
  value under the key, or the text Python prints for the payload. The text itself is not
  modelled, only that it is a str.
\<close>

datatype pyval = Val json | StrOf json

fun py_get_message :: "json \<Rightarrow> py_error + pyval" where
  "py_get_message (JObj kvs) =
     Inr (case map_of kvs ''message'' of Some v \<Rightarrow> Val v | None \<Rightarrow> StrOf (JObj kvs))"
| "py_get_message _ = Inl AttributeError"

text \<open>\<^verbatim>\<open>print(f'  {msg[:800]}')\<close>: nothing is kept of it but whether the slice raises.\<close>

fun print_prefix :: "nat \<Rightarrow> pyval \<Rightarrow> py_error + unit" where
  "print_prefix n (StrOf x) = Inr ()"
| "print_prefix n (Val v) = (case py_slice_to n v of Inl ex \<Rightarrow> Inl ex | Inr pre \<Rightarrow> Inr ())"

text \<open>\<^verbatim>\<open>{'seq': seq, 'actor': actor, 'message': msg}\<close>\<close>

record chat_message =
  seq :: json
  actor :: json
  message :: pyval

text \<open>
  The body of the loop over \<^verbatim>\<open>events\<close>:
  \<^verbatim>\<open>
  etype = e.get('event_type', '?')
  actor = e.get('actor_user_id', '?')[:20]
  seq = e.get('seq', '?')
  pjson = e.get('payload_json', '{}')
  try:
      payload = json.loads(pjson) if isinstance(pjson, str) else pjson
  except:
      payload = {}
  if etype == 'public.chat':
      msg = payload.get('message', str(payload))
      chat_messages.append({'seq': seq, 'actor': actor, 'message': msg})
      print(f'\n[Event {seq}] {etype} by {actor}:')
      print(f'  {msg[:800]}')
  else:
      print(f'[Event {seq}] {etype} by {actor}')
  \<close>
  The result is the entry appended to \<^verbatim>\<open>chat_messages\<close>, if any; an exception leaves the
  loop and the script.
\<close>

definition event_step :: "(string \<Rightarrow> json option) \<Rightarrow> json \<Rightarrow> py_error + chat_message option" where
  "event_step loads e =
     (case py_get e ''event_type'' (JStr ''?'') of
        Inl ex \<Rightarrow> Inl ex
      | Inr etype \<Rightarrow>
     (case py_get e ''actor_user_id'' (JStr ''?'') of
        Inl ex \<Rightarrow> Inl ex
      | Inr who \<Rightarrow>
     (case py_slice_to 20 who of
        Inl ex \<Rightarrow> Inl ex
      | Inr who20 \<Rightarrow>
     (case py_get e ''seq'' (JStr ''?'') of
        Inl ex \<Rightarrow> Inl ex
      | Inr sq \<Rightarrow>
     (case py_get e ''payload_json'' (JStr ''{}'') of
        Inl ex \<Rightarrow> Inl ex
      | Inr pjson \<Rightarrow>
         (let payload =
                (case pjson of
                   JStr s \<Rightarrow> (case loads s of None \<Rightarrow> JObj [] | Some v \<Rightarrow> v)
                 | _ \<Rightarrow> pjson)
          in if etype = JStr ''public.chat'' then
               (case py_get_message payload of
                  Inl ex \<Rightarrow> Inl ex
                | Inr msg \<Rightarrow>
                    (case print_prefix 800 msg of
                       Inl ex \<Rightarrow> Inl ex
                     | Inr u \<Rightarrow> Inr (Some \<lparr>seq = sq, actor = who20, message = msg\<rparr>)))
             else Inr None))))))"

text \<open>\<^verbatim>\<open>for e in events:\<close> with \<^verbatim>\<open>chat_messages\<close> as the accumulator.\<close>

fun per_event ::
  "(string \<Rightarrow> json option) \<Rightarrow> json list \<Rightarrow> chat_message list \<Rightarrow> py_error + chat_message list" where
  "per_event loads [] chat_messages = Inr chat_messages"
| "per_event loads (e # es) chat_messages =
     (case event_step loads e of
        Inl ex \<Rightarrow> Inl ex
      | Inr None \<Rightarrow> per_event loads es chat_messages
      | Inr (Some entry) \<Rightarrow> per_event loads es (chat_messages @ [entry]))"

text \<open>
  \<^verbatim>\<open>
  if not chat_messages:
      for e in collected_events:
          etype = e.get('event_type', '?')
          if etype == 'public.chat':
              payload = e.get('payload', e)
              msg = payload.get('message', str(payload))
              print(f'\n[WS Chat] {msg[:800]}')
  \<close>
\<close>

fun ws_chat_check :: "json list \<Rightarrow> py_error + unit" where
  "ws_chat_check [] = Inr ()"
| "ws_chat_check (e # es) =
     (case py_get e ''event_type'' (JStr ''?'') of
        Inl ex \<Rightarrow> Inl ex
      | Inr etype \<Rightarrow>
          if etype = JStr ''public.chat'' then
            (case py_get e ''payload'' e of
               Inl ex \<Rightarrow> Inl ex
             | Inr payload \<Rightarrow>
                 (case py_get_message payload of
                    Inl ex \<Rightarrow> Inl ex
                  | Inr msg \<Rightarrow>
                      (case print_prefix 800 msg of
                         Inl ex \<Rightarrow> Inl ex
                       | Inr u \<Rightarrow> ws_chat_check es)))
          else ws_chat_check es)"

text \<open>
  \<^verbatim>\<open>
  result = {
      'provider': PROVIDER,
      'room_id': room_id,
      'total_events': len(events),
      'chat_count': len(chat_messages),
      'elapsed_seconds': int(time.time()-start),
      'messages': chat_messages
  }
  \<close>
\<close>

record result =
  provider :: string
  room_id :: json
  total_events :: nat
  chat_count :: nat
  elapsed_seconds :: int
  messages :: "chat_message list"

text \<open>
  The script from step 6 to the result record: the fetch and the choice of the event list,
  the loop over the events, the look at the live buffer when no chat message was found,
  and the record. \<open>Inl\<close> is an exception that ends the script before the record exists.
\<close>

definition report ::
  "(string \<Rightarrow> json option) \<Rightarrow> string \<Rightarrow> json \<Rightarrow> int \<Rightarrow> py_error + json \<Rightarrow> json list
     \<Rightarrow> py_error + result" where
  "report loads prov rid elapsed fetched buffer =
     (let evs = reconcile fetched buffer in
      case py_iter evs of
        Inl ex \<Rightarrow> Inl ex
      | Inr es \<Rightarrow>
     (case per_event loads es [] of
        Inl ex \<Rightarrow> Inl ex
      | Inr chat_messages \<Rightarrow>
     (case (if chat_messages = [] then ws_chat_check buffer else Inr ()) of
        Inl ex \<Rightarrow> Inl ex
      | Inr u \<Rightarrow>
     (case py_len evs of
        Inl ex \<Rightarrow> Inl ex
      | Inr n \<Rightarrow>
          Inr \<lparr>provider = prov, room_id = rid, total_events = n,
               chat_count = length chat_messages, elapsed_seconds = elapsed,
               messages = chat_messages\<rparr>))))"

section \<open>\<^verbatim>\<open>fetch_events.py\<close>: the same loop in the viewer\<close>

text \<open>
  \<^verbatim>\<open>
  etype = e.get('event_type', '?')
  actor = e.get('actor_user_id', '?')
  seq = e.get('seq', '?')
  pjson = e.get('payload_json', '{}')
  try:
      payload = json.loads(pjson) if isinstance(pjson, str) else pjson
  except:
      payload = pjson
  if etype == 'public.chat':
      msg = payload.get('message', '')
      print(f'\n[{seq}] {etype} by {actor}:')
      print(f'  {msg[:500]}')
  else:
      print(f'[{seq}] {etype} by {actor}')
  \<close>
\<close>

definition viewer_step :: "(string \<Rightarrow> json option) \<Rightarrow> json \<Rightarrow> py_error + unit" where
  "viewer_step loads e =
     (case py_get e ''event_type'' (JStr ''?'') of
        Inl ex \<Rightarrow> Inl ex
      | Inr etype \<Rightarrow>
     (case py_get e ''actor_user_id'' (JStr ''?'') of
        Inl ex \<Rightarrow> Inl ex
      | Inr who \<Rightarrow>
     (case py_get e ''seq'' (JStr ''?'') of
        Inl ex \<Rightarrow> Inl ex
      | Inr sq \<Rightarrow>
     (case py_get e ''payload_json'' (JStr ''{}'') of
        Inl ex \<Rightarrow> Inl ex
      | Inr pjson \<Rightarrow>
         (let payload =
                (case pjson of
                   JStr s \<Rightarrow> (case loads s of None \<Rightarrow> pjson | Some v \<Rightarrow> v)
                 | _ \<Rightarrow> pjson)
          in if etype = JStr ''public.chat'' then
               (case py_get payload ''message'' (JStr []) of
                  Inl ex \<Rightarrow> Inl ex
                | Inr msg \<Rightarrow>
                    (case py_slice_to 500 msg of Inl ex \<Rightarrow> Inl ex | Inr pre \<Rightarrow> Inr ()))
             else Inr ())))))"

section \<open>\<^verbatim>\<open>test_debug.py\<close>: subscribe, drain, command\<close>

text \<open>
  \<^verbatim>\<open>
  ws.send(json.dumps({'type':'subscribe','request_id':'sub1',
                      'payload':{'room_id':rid,'last_seq':0}}))
  events = []
  while True:
      try:
          ws.settimeout(2)
          msg = json.loads(ws.recv())
          events.append(msg)
          if msg.get('type') == 'subscribed':
              break
      except:
          break
  ...
  ws.send(json.dumps({'type':'command','request_id':'start1',
                      'payload':{'room_id':rid,'type':'start_game'}}))
  \<close>
  The input is the outcome of each call of \<^verbatim>\<open>ws.recv()\<close> in turn: \<open>Inl\<close> when it raises
  (time-out, closed connection), \<open>Inr\<close> the text of the frame. When the list is used up
  nothing more arrives, and \<^verbatim>\<open>recv\<close> times out.
\<close>

definition debug_subscribe :: "json \<Rightarrow> json" where
  "debug_subscribe rid =
     JObj [(''type'', JStr ''subscribe''), (''request_id'', JStr ''sub1''),
           (''payload'', JObj [(''room_id'', rid), (''last_seq'', JInt 0)])]"

definition debug_command :: "json \<Rightarrow> json" where
  "debug_command rid =
     JObj [(''type'', JStr ''command''), (''request_id'', JStr ''start1''),
           (''payload'', JObj [(''room_id'', rid), (''type'', JStr ''start_game'')])]"

fun drain ::
  "(string \<Rightarrow> json option) \<Rightarrow> (py_error + string) list \<Rightarrow> json list \<Rightarrow> json list" where
  "drain loads [] evs = evs"
| "drain loads (Inl ex # rest) evs = evs"
| "drain loads (Inr raw # rest) evs =
     (case loads raw of
        None \<Rightarrow> evs
      | Some msg \<Rightarrow>
          (case py_get msg ''type'' JNull of
             Inl ex \<Rightarrow> evs @ [msg]
           | Inr ty \<Rightarrow>
               if ty = JStr ''subscribed'' then evs @ [msg]
               else drain loads rest (evs @ [msg])))"

definition debug_handshake ::
  "(string \<Rightarrow> json option) \<Rightarrow> json \<Rightarrow> (py_error + string) list \<Rightarrow> io list" where
  "debug_handshake loads rid incoming =
     (let wire1 = ws_send (debug_subscribe rid) [];
          wire2 = wire1 @ map Received (drain loads incoming [])
      in ws_send (debug_command rid) wire2)"

section \<open>\<^verbatim>\<open>test_llm_api.py\<close>: the provider calls\<close>

text \<open>\<^verbatim>\<open>k in x\<close> for a str \<open>k\<close>: a key of a dict, an item of a list, a part of a str.\<close>

fun starts_with :: "string \<Rightarrow> string \<Rightarrow> bool" where
  "starts_with [] s = True"
| "starts_with (c # cs) [] = False"
| "starts_with (c # cs) (d # ds) = (c = d \<and> starts_with cs ds)"

fun is_substring :: "string \<Rightarrow> string \<Rightarrow> bool" where
  "is_substring k [] = (k = [])"
| "is_substring k (c # s) = (starts_with k (c # s) \<or> is_substring k s)"

fun py_contains :: "string \<Rightarrow> json \<Rightarrow> py_error + bool" where
  "py_contains k (JObj kvs) = Inr (map_of kvs k \<noteq> None)"
| "py_contains k (JArr xs) = Inr (JStr k \<in> set xs)"
| "py_contains k (JStr s) = Inr (is_substring k s)"
| "py_contains k _ = Inl TypeError"

text \<open>\<^verbatim>\<open>x[k]\<close> for a str \<open>k\<close>: only a dict takes it.\<close>

fun py_item :: "json \<Rightarrow> string \<Rightarrow> py_error + json" where
  "py_item (JObj kvs) k = (case map_of kvs k of Some v \<Rightarrow> Inr v | None \<Rightarrow> Inl KeyError)"
| "py_item _ k = Inl TypeError"

text \<open>\<^verbatim>\<open>x[0]\<close>: no dict decoded from JSON has the key \<open>0\<close>.\<close>

fun py_first :: "json \<Rightarrow> py_error + json" where
  "py_first (JArr []) = Inl IndexError"
| "py_first (JArr (x # xs)) = Inr x"
| "py_first (JStr []) = Inl IndexError"
| "py_first (JStr (c # s)) = Inr (JStr [c])"
| "py_first (JObj kvs) = Inl KeyError"
| "py_first _ = Inl TypeError"

text \<open>The items of \<^verbatim>\<open>p.get("text", "") for p in parts\<close>, up to the first that raises.\<close>

fun part_texts :: "json list \<Rightarrow> py_error + json list" where
  "part_texts [] = Inr []"
| "part_texts (p # ps) =
     (case py_get p ''text'' (JStr []) of
        Inl ex \<Rightarrow> Inl ex
      | Inr t \<Rightarrow> (case part_texts ps of Inl ex \<Rightarrow> Inl ex | Inr ts \<Rightarrow> Inr (t # ts)))"

text \<open>\<^verbatim>\<open>"".join(items)\<close>: every item has to be a str.\<close>

fun py_join :: "json list \<Rightarrow> py_error + string" where
  "py_join [] = Inr []"
| "py_join (JStr s # ts) = (case py_join ts of Inl ex \<Rightarrow> Inl ex | Inr r \<Rightarrow> Inr (s @ r))"
| "py_join (t # ts) = Inl TypeError"

text \<open>
  \<^verbatim>\<open>
  text = ""
  if "candidates" in body and len(body["candidates"]) > 0:
      parts = body["candidates"][0].get("content", {}).get("parts", [])
      text = "".join(p.get("text", "") for p in parts)
  \<close>
\<close>

definition gemini_text :: "json \<Rightarrow> py_error + json" where
  "gemini_text body =
     (case py_contains ''candidates'' body of
        Inl ex \<Rightarrow> Inl ex
      | Inr False \<Rightarrow> Inr (JStr [])
      | Inr True \<Rightarrow>
     (case py_item body ''candidates'' of
        Inl ex \<Rightarrow> Inl ex
      | Inr cands \<Rightarrow>
     (case py_len cands of
        Inl ex \<Rightarrow> Inl ex
      | Inr n \<Rightarrow>
          if 0 < n then
            (case py_first cands of
               Inl ex \<Rightarrow> Inl ex
             | Inr c0 \<Rightarrow>
            (case py_get c0 ''content'' (JObj []) of
               Inl ex \<Rightarrow> Inl ex
             | Inr content \<Rightarrow>
            (case py_get content ''parts'' (JArr []) of
               Inl ex \<Rightarrow> Inl ex
             | Inr parts \<Rightarrow>
            (case py_iter parts of
               Inl ex \<Rightarrow> Inl ex
             | Inr ps \<Rightarrow>
            (case part_texts ps of
               Inl ex \<Rightarrow> Inl ex
             | Inr ts \<Rightarrow>
            (case py_join ts of Inl ex \<Rightarrow> Inl ex | Inr joined \<Rightarrow> Inr (JStr joined)))))))
          else Inr (JStr []))))"

text \<open>
  \<^verbatim>\<open>
  text = ""
  if "choices" in body and len(body["choices"]) > 0:
      text = body["choices"][0].get("message", {}).get("content", "")
  \<close>
\<close>

definition deepseek_text :: "json \<Rightarrow> py_error + json" where
  "deepseek_text body =
     (case py_contains ''choices'' body of
        Inl ex \<Rightarrow> Inl ex
      | Inr False \<Rightarrow> Inr (JStr [])
      | Inr True \<Rightarrow>
     (case py_item body ''choices'' of
        Inl ex \<Rightarrow> Inl ex
      | Inr choices \<Rightarrow>
     (case py_len choices of
        Inl ex \<Rightarrow> Inl ex
      | Inr n \<Rightarrow>
          if 0 < n then
            (case py_first choices of
               Inl ex \<Rightarrow> Inl ex
             | Inr c0 \<Rightarrow>
            (case py_get c0 ''message'' (JObj []) of
               Inl ex \<Rightarrow> Inl ex
             | Inr msg \<Rightarrow> py_get msg ''content'' (JStr [])))
          else Inr (JStr []))))"

text \<open>
  \<^verbatim>\<open>
  tokens = {}
  if "usageMetadata" in body:
      tokens = body["usageMetadata"]
  \<close>
  and the same with \<^verbatim>\<open>"usage"\<close> for DeepSeek.
\<close>

definition body_tokens :: "string \<Rightarrow> json \<Rightarrow> py_error + json" where
  "body_tokens key body =
     (case py_contains key body of
        Inl ex \<Rightarrow> Inl ex
      | Inr False \<Rightarrow> Inr (JObj [])
      | Inr True \<Rightarrow> py_item body key)"

text \<open>
  What the HTTP call can do. \<open>Responded r\<close>: \<^verbatim>\<open>urlopen\<close> returned, and \<open>r\<close> is the outcome
  of \<^verbatim>\<open>json.loads(resp.read().decode('utf-8'))\<close>. \<open>HTTPError code body shown\<close>: \<^verbatim>\<open>urlopen\<close>
  raised \<^verbatim>\<open>urllib.error.HTTPError\<close> with \<^verbatim>\<open>e.code = code\<close> and \<^verbatim>\<open>str(e) = shown\<close>; \<open>body\<close> is
  \<open>None\<close> when \<^verbatim>\<open>e.fp\<close> is empty and else the outcome of \<^verbatim>\<open>e.read().decode('utf-8')\<close>.
  \<open>OtherError ex\<close>: \<^verbatim>\<open>urlopen\<close> raised anything else.
\<close>

datatype http_outcome =
    Responded "py_error + json"
  | HTTPError nat "(py_error + string) option" string
  | OtherError py_error

text \<open>The decimal digits of a status code, as the f-string prints them.\<close>

fun decimal :: "nat \<Rightarrow> string" where
  "decimal n =
     (if n < 10 then [''0123456789'' ! n]
      else decimal (n div 10) @ [''0123456789'' ! (n mod 10)])"

text \<open>The two records an invocation returns.\<close>

definition success_record :: "json \<Rightarrow> real \<Rightarrow> json \<Rightarrow> (string \<times> json) list" where
  "success_record text latency tokens =
     [(''success'', JBool True), (''text'', text), (''latency'', JFloat latency),
      (''tokens'', tokens), (''raw_status'', JInt 200)]"

definition failure_record :: "string \<Rightarrow> real \<Rightarrow> int \<Rightarrow> (string \<times> json) list" where
  "failure_record error latency status =
     [(''success'', JBool False), (''error'', JStr error), (''latency'', JFloat latency),
      (''raw_status'', JInt status)]"

text \<open>
  \<^verbatim>\<open>test_gemini\<close>, from the request on:
  \<^verbatim>\<open>
  start = time.time()
  try:
      with urllib.request.urlopen(req, timeout=60) as resp:
          body = json.loads(resp.read().decode('utf-8'))
      latency = time.time() - start
      text = ""
      tokens = {}
      if "candidates" in body and len(body["candidates"]) > 0: ...
      if "usageMetadata" in body: ...
      return {"success": True, "text": text, "latency": latency,
              "tokens": tokens, "raw_status": 200}
  except urllib.error.HTTPError as e:
      latency = time.time() - start
      error_body = e.read().decode('utf-8') if e.fp else str(e)
      return {"success": False, "error": f"HTTP {e.code}: {error_body[:500]}",
              "latency": latency, "raw_status": e.code}
  except Exception as e:
      latency = time.time() - start
      return {"success": False, "error": str(e), "latency": latency, "raw_status": 0}
  \<close>
  \<open>exc_str\<close> stands for \<^verbatim>\<open>str(e)\<close>, \<open>latency\<close> for the difference of the two readings of the
  clock. An exception raised inside the first handler is not caught by the second: it
  leaves the function (\<open>Inl\<close>).
\<close>

definition test_gemini ::
  "(py_error \<Rightarrow> string) \<Rightarrow> real \<Rightarrow> http_outcome \<Rightarrow> py_error + (string \<times> json) list" where
  "test_gemini exc_str latency outcome =
     (case outcome of
        Responded r \<Rightarrow>
          (case r of
             Inl ex \<Rightarrow> Inr (failure_record (exc_str ex) latency 0)
           | Inr body \<Rightarrow>
          (case gemini_text body of
             Inl ex \<Rightarrow> Inr (failure_record (exc_str ex) latency 0)
           | Inr text \<Rightarrow>
          (case body_tokens ''usageMetadata'' body of
             Inl ex \<Rightarrow> Inr (failure_record (exc_str ex) latency 0)
           | Inr tokens \<Rightarrow> Inr (success_record text latency tokens))))
      | HTTPError code body shown \<Rightarrow>
          (case (case body of None \<Rightarrow> Inr shown | Some decoded \<Rightarrow> decoded) of
             Inl ex \<Rightarrow> Inl ex
           | Inr error_body \<Rightarrow>
               Inr (failure_record (''HTTP '' @ decimal code @ '': '' @ take 500 error_body)
                      latency (int code)))
      | OtherError ex \<Rightarrow> Inr (failure_record (exc_str ex) latency 0))"

text \<open>
  \<^verbatim>\<open>test_deepseek\<close> has the same three branches, with \<^verbatim>\<open>"choices"\<close> and \<^verbatim>\<open>"usage"\<close> read
  from the body.
\<close>

definition test_deepseek ::
  "(py_error \<Rightarrow> string) \<Rightarrow> real \<Rightarrow> http_outcome \<Rightarrow> py_error + (string \<times> json) list" where
  "test_deepseek exc_str latency outcome =
     (case outcome of
        Responded r \<Rightarrow>
          (case r of
             Inl ex \<Rightarrow> Inr (failure_record (exc_str ex) latency 0)
           | Inr body \<Rightarrow>
          (case deepseek_text body of
             Inl ex \<Rightarrow> Inr (failure_record (exc_str ex) latency 0)
           | Inr text \<Rightarrow>
          (case body_tokens ''usage'' body of
             Inl ex \<Rightarrow> Inr (failure_record (exc_str ex) latency 0)
           | Inr tokens \<Rightarrow> Inr (success_record text latency tokens))))
      | HTTPError code body shown \<Rightarrow>
          (case (case body of None \<Rightarrow> Inr shown | Some decoded \<Rightarrow> decoded) of
             Inl ex \<Rightarrow> Inl ex
           | Inr error_body \<Rightarrow>
               Inr (failure_record (''HTTP '' @ decimal code @ '': '' @ take 500 error_body)
                      latency (int code)))
      | OtherError ex \<Rightarrow> Inr (failure_record (exc_str ex) latency 0))"

section \<open>Properties of the reconciliation\<close>

lemma api_events_raised: "api_events (Inl ex) = JArr []"
  by (simp add: api_events_def)

lemma api_events_list: "api_events (Inr (JArr es)) = JArr es"
  by (simp add: api_events_def)

lemma api_events_falsy_keeps_buffer:
  "\<not> truthy (api_events fetched) \<Longrightarrow> reconcile fetched buf = JArr buf"
  by (simp add: reconcile_def events_def)

text \<open>
  C1, as stated: after a successful fetch of a non-empty list the script reports the
  fetched events sorted ascending by sequence number. The script does not sort: a
  response that lists sequence number 2 before 1 is reported in that order.
\<close>

theorem rest_order_counterexample:
  "reconcile (Inr (JArr [JObj [(''seq'', JInt 2)], JObj [(''seq'', JInt 1)]])) []
     = JArr [JObj [(''seq'', JInt 2)], JObj [(''seq'', JInt 1)]]
   \<and> reconcile (Inr (JArr [JObj [(''seq'', JInt 2)], JObj [(''seq'', JInt 1)]])) []
     \<noteq> JArr (spec_sorted_by_seq [JObj [(''seq'', JInt 2)], JObj [(''seq'', JInt 1)]])"
  by (simp add: reconcile_def events_def api_events_def spec_sorted_by_seq_def
      has_seq_def seq_of_def)

text \<open>
  C1, amended: after a successful fetch of a non-empty list the script reports exactly
  the fetched list, in the order the server gave it, whatever the live buffer holds; the
  report is in the specification's order exactly when the response already is.
\<close>

theorem rest_precedence:
  assumes "es \<noteq> []"
  shows "reconcile (Inr (JArr es)) buf = JArr es
    \<and> (reconcile (Inr (JArr es)) buf = JArr (spec_sorted_by_seq es)
         \<longleftrightarrow> spec_sorted_by_seq es = es)"
proof -
  have chosen: "reconcile (Inr (JArr es)) buf = JArr es"
    using assms by (simp add: reconcile_def events_def api_events_list)
  then show ?thesis by auto
qed

theorem rest_precedence_witness:
  "[JObj [(''seq'', JInt 1)], JObj [(''seq'', JInt 2)]] \<noteq> []
   \<and> reconcile (Inr (JArr [JObj [(''seq'', JInt 1)], JObj [(''seq'', JInt 2)]]))
        [JObj [(''seq'', JInt 7)]]
     = JArr [JObj [(''seq'', JInt 1)], JObj [(''seq'', JInt 2)]]"
  using rest_precedence [of "[JObj [(''seq'', JInt 1)], JObj [(''seq'', JInt 2)]]"
      "[JObj [(''seq'', JInt 7)]]"]
  by simp

text \<open>
  C2, as stated: after a failed fetch the script reports the Collected Buffer sorted
  ascending by sequence number. It reports the buffer as it is: two events that arrived
  as 2, 1 stay in that order.
\<close>

theorem fallback_order_counterexample:
  "reconcile (Inl URLError) [JObj [(''seq'', JInt 2)], JObj [(''seq'', JInt 1)]]
     = JArr [JObj [(''seq'', JInt 2)], JObj [(''seq'', JInt 1)]]
   \<and> reconcile (Inl URLError) [JObj [(''seq'', JInt 2)], JObj [(''seq'', JInt 1)]]
     \<noteq> JArr (spec_sorted_by_seq [JObj [(''seq'', JInt 2)], JObj [(''seq'', JInt 1)]])"
  by (simp add: reconcile_def events_def api_events_def spec_sorted_by_seq_def
      has_seq_def seq_of_def)

text \<open>
  C2, amended: a failed fetch does not fail the run; the script then reports the
  Collected Buffer unchanged, in arrival order. The report is in the specification's order
  (sequenced events ascending, unsequenced ones after them) exactly when the arrival order
  already is.
\<close>

theorem fallback_is_arrival_order:
  "reconcile (Inl ex) buf = JArr buf
   \<and> (reconcile (Inl ex) buf = JArr (spec_sorted_by_seq buf)
        \<longleftrightarrow> spec_sorted_by_seq buf = buf)"
proof -
  have "\<not> truthy (api_events (Inl ex))"
    by (simp add: api_events_raised)
  then have kept: "reconcile (Inl ex) buf = JArr buf"
    by (rule api_events_falsy_keeps_buffer)
  then show ?thesis by auto
qed

theorem fallback_is_arrival_order_witness:
  "reconcile (Inl URLError) [JObj [(''seq'', JInt 5)], JObj [(''event_type'', JStr ''x'')]]
     = JArr [JObj [(''seq'', JInt 5)], JObj [(''event_type'', JStr ''x'')]]
   \<and> reconcile (Inl URLError) [JObj [(''seq'', JInt 5)], JObj [(''event_type'', JStr ''x'')]]
     = JArr (spec_sorted_by_seq [JObj [(''seq'', JInt 5)], JObj [(''event_type'', JStr ''x'')]])"
  using fallback_is_arrival_order [of URLError
      "[JObj [(''seq'', JInt 5)], JObj [(''event_type'', JStr ''x'')]]"]
  by (simp add: spec_sorted_by_seq_def has_seq_def seq_of_def)

text \<open>
  C3, as stated: in the fallback the log holds one event per sequence number. The script
  removes nothing: an event delivered twice with sequence number 1 is in the log twice.
\<close>

theorem fallback_duplicate_counterexample:
  "reconcile (Inr (JArr []))
      [JObj [(''seq'', JInt 1), (''event_type'', JStr ''public.chat'')],
       JObj [(''seq'', JInt 1), (''event_type'', JStr ''public.chat'')]]
     = JArr [JObj [(''seq'', JInt 1), (''event_type'', JStr ''public.chat'')],
             JObj [(''seq'', JInt 1), (''event_type'', JStr ''public.chat'')]]
   \<and> seq_count 1 [JObj [(''seq'', JInt 1), (''event_type'', JStr ''public.chat'')],
                   JObj [(''seq'', JInt 1), (''event_type'', JStr ''public.chat'')]] = 2"
  by (simp add: reconcile_def events_def api_events_def seq_count_def seq_of_def)

text \<open>
  C3, amended: when the fetch failed or gave an empty list, the log is the buffer itself,
  every delivery in its place: a duplicate delivery stays in the log, both occurrences in
  arrival order, and the log has one event per sequence number only when the buffer has.
\<close>

theorem fallback_keeps_every_delivery:
  assumes "fetched = Inl ex \<or> fetched = Inr (JArr [])"
  shows "reconcile fetched buf = JArr buf"
proof -
  from assms have "\<not> truthy (api_events fetched)"
    by (auto simp: api_events_raised api_events_list)
  then show ?thesis
    by (rule api_events_falsy_keeps_buffer)
qed

theorem fallback_keeps_every_delivery_witness:
  "(Inr (JArr []) = (Inl URLError :: py_error + json) \<or> Inr (JArr []) = (Inr (JArr []) :: py_error + json))
   \<and> reconcile (Inr (JArr []))
       [JObj [(''seq'', JInt 1), (''payload_json'', JStr ''first'')],
        JObj [(''seq'', JInt 2)],
        JObj [(''seq'', JInt 1), (''payload_json'', JStr ''second'')]]
     = JArr [JObj [(''seq'', JInt 1), (''payload_json'', JStr ''first'')],
             JObj [(''seq'', JInt 2)],
             JObj [(''seq'', JInt 1), (''payload_json'', JStr ''second'')]]"
  using fallback_keeps_every_delivery [of "Inr (JArr [])" URLError
      "[JObj [(''seq'', JInt 1), (''payload_json'', JStr ''first'')],
        JObj [(''seq'', JInt 2)],
        JObj [(''seq'', JInt 1), (''payload_json'', JStr ''second'')]]"]
  by simp

section \<open>Properties of the report\<close>

text \<open>
  C8, as stated: a result built from the live buffer is marked as best-effort. The record
  has no such mark: with the fetch failed and one chat event in the buffer, the script
  writes the very record it writes when the fetch returned that event.
\<close>

theorem live_only_result_counterexample:
  "report (map_of [(''{}'', JObj [])]) ''gemini'' (JStr ''r1'') 12 (Inl URLError)
      [JObj [(''seq'', JInt 1), (''event_type'', JStr ''public.chat''),
             (''actor_user_id'', JStr ''u1'')]]
   = Inr \<lparr>provider = ''gemini'', room_id = JStr ''r1'', total_events = 1, chat_count = 1,
          elapsed_seconds = 12,
          messages = [\<lparr>seq = JInt 1, actor = JStr ''u1'', message = StrOf (JObj [])\<rparr>]\<rparr>
   \<and> report (map_of [(''{}'', JObj [])]) ''gemini'' (JStr ''r1'') 12
      (Inr (JArr [JObj [(''seq'', JInt 1), (''event_type'', JStr ''public.chat''),
                        (''actor_user_id'', JStr ''u1'')]]))
      [JObj [(''seq'', JInt 1), (''event_type'', JStr ''public.chat''),
             (''actor_user_id'', JStr ''u1'')]]
   = Inr \<lparr>provider = ''gemini'', room_id = JStr ''r1'', total_events = 1, chat_count = 1,
          elapsed_seconds = 12,
          messages = [\<lparr>seq = JInt 1, actor = JStr ''u1'', message = StrOf (JObj [])\<rparr>]\<rparr>"
  by (simp add: report_def reconcile_def events_def api_events_def event_step_def)

text \<open>
  C8, amended: the result record holds the provider, the room, the two counts, the elapsed
  seconds and the chat messages, and nothing on where the events came from: a run whose
  fetch failed ends exactly as the run whose fetch returned the buffer's events does, with
  the same record or the same exception.
\<close>

theorem result_carries_no_provenance:
  "report loads prov rid elapsed (Inl ex) es
     = report loads prov rid elapsed (Inr (JArr es)) es"
proof -
  have "reconcile (Inl ex) es = JArr es"
    by (simp add: api_events_falsy_keeps_buffer api_events_raised)
  moreover have "reconcile (Inr (JArr es)) es = JArr es"
    by (simp add: reconcile_def events_def api_events_list)
  ultimately show ?thesis
    by (simp add: report_def)
qed

theorem result_carries_no_provenance_witness:
  "report (map_of [(''{}'', JObj [])]) ''deepseek'' (JStr ''r2'') 60 (Inl URLError)
      [JObj [(''seq'', JInt 4), (''event_type'', JStr ''game.started'')]]
   = Inr \<lparr>provider = ''deepseek'', room_id = JStr ''r2'', total_events = 1, chat_count = 0,
          elapsed_seconds = 60, messages = []\<rparr>"
proof -
  have authoritative:
    "report (map_of [(''{}'', JObj [])]) ''deepseek'' (JStr ''r2'') 60
        (Inr (JArr [JObj [(''seq'', JInt 4), (''event_type'', JStr ''game.started'')]]))
        [JObj [(''seq'', JInt 4), (''event_type'', JStr ''game.started'')]]
     = Inr \<lparr>provider = ''deepseek'', room_id = JStr ''r2'', total_events = 1, chat_count = 0,
            elapsed_seconds = 60, messages = []\<rparr>"
    by (simp add: report_def reconcile_def events_def api_events_def event_step_def)
  show ?thesis
    using result_carries_no_provenance
      [of "map_of [(''{}'', JObj [])]" "''deepseek''" "JStr ''r2''" 60 URLError
          "[JObj [(''seq'', JInt 4), (''event_type'', JStr ''game.started'')]]"]
      authoritative
    by simp
qed

text \<open>
  C9 (a defect of the code): an event whose \<^verbatim>\<open>actor_user_id\<close> is null ends fulltest.py
  with a TypeError, raised by the slice \<^verbatim>\<open>[:20]\<close> of \<^verbatim>\<open>None\<close>, before any result record
  is built. The same loop in \<^verbatim>\<open>fetch_events.py\<close>, which does not slice the actor, gets through
  the event.
\<close>

theorem null_actor_aborts_report:
  "report loads prov rid elapsed
     (Inr (JArr [JObj [(''seq'', JInt 1), (''event_type'', JStr ''game.started''),
                       (''actor_user_id'', JNull), (''payload_json'', JStr ''{}'')]])) buffer
     = Inl TypeError
   \<and> viewer_step loads
       (JObj [(''seq'', JInt 1), (''event_type'', JStr ''game.started''),
              (''actor_user_id'', JNull), (''payload_json'', JStr ''{}'')]) = Inr ()"
  by (simp add: report_def reconcile_def events_def api_events_def event_step_def
      viewer_step_def)

section \<open>Properties of the collector\<close>

lemma on_message_appends:
  "collected_events (on_message loads st frame) =
     collected_events st @
       (case loads frame of
          None \<Rightarrow> []
        | Some msg \<Rightarrow> if is_event_envelope msg then [payload_of msg] else [])"
proof (cases "loads frame")
  case None
  then show ?thesis by (simp add: on_message_def)
next
  case (Some msg)
  show ?thesis
  proof (cases msg)
    case (JObj kvs)
    with Some show ?thesis
      by (auto simp: on_message_def is_event_envelope_def payload_of_def Let_def
          split: option.splits sum.splits)
  qed (use Some in \<open>simp_all add: on_message_def is_event_envelope_def\<close>)
qed

lemma deliver_all_appends:
  "collected_events (deliver_all loads st frames) =
     collected_events st @
       map payload_of (filter is_event_envelope (envelopes loads frames))"
proof (induction frames arbitrary: st)
  case Nil
  then show ?case by (simp add: deliver_all_def envelopes_def)
next
  case (Cons m ms)
  have "collected_events (deliver_all loads st (m # ms)) =
          collected_events (deliver_all loads (on_message loads st m) ms)"
    by (simp add: deliver_all_def)
  also have "\<dots> = collected_events (on_message loads st m) @
          map payload_of (filter is_event_envelope (envelopes loads ms))"
    by (rule Cons.IH)
  finally show ?case
    by (cases "loads m") (simp_all add: on_message_appends envelopes_def map_filter_simps)
qed

text \<open>
  C4: whatever frames reach \<^verbatim>\<open>on_message\<close>, the buffer grows by exactly the Game Events
  of the envelopes of kind \<^verbatim>\<open>event\<close>, in the order the envelopes arrived; started empty,
  its final length is the number of those envelopes.
\<close>

theorem buffer_is_event_envelopes_in_arrival_order:
  "collected_events (deliver_all loads st frames) =
     collected_events st @
       map payload_of (filter is_event_envelope (envelopes loads frames))
   \<and> length (collected_events
        (deliver_all loads \<lparr>collected_events = [], game_started = False\<rparr> frames)) =
     length (filter is_event_envelope (envelopes loads frames))"
  by (simp add: deliver_all_appends)


theorem buffer_is_event_envelopes_in_arrival_order_witness:
  "collected_events
     (deliver_all
        (map_of
           [(''a'', JObj [(''type'', JStr ''event''), (''payload'', JObj [(''seq'', JInt 2)])]),
            (''b'', JObj [(''type'', JStr ''subscribed'')]),
            (''c'', JObj [(''type'', JStr ''event''), (''payload'', JObj [(''seq'', JInt 1)])])])
        \<lparr>collected_events = [], game_started = False\<rparr>
        [''a'', ''not json'', ''b'', ''c''])
     = [JObj [(''seq'', JInt 2)], JObj [(''seq'', JInt 1)]]"
  using buffer_is_event_envelopes_in_arrival_order
    [of "map_of
           [(''a'', JObj [(''type'', JStr ''event''), (''payload'', JObj [(''seq'', JInt 2)])]),
            (''b'', JObj [(''type'', JStr ''subscribed'')]),
            (''c'', JObj [(''type'', JStr ''event''), (''payload'', JObj [(''seq'', JInt 1)])])]"
        "\<lparr>collected_events = [], game_started = False\<rparr>"
        "[''a'', ''not json'', ''b'', ''c'']"]
  by (simp add: envelopes_def is_event_envelope_def payload_of_def map_filter_simps)

section \<open>Properties of the collection loop\<close>

lemma chat_count_of_objects:
  "\<forall>e \<in> set es. is_object e \<Longrightarrow> chat_count_of es = Inr (length (filter is_chat es))"
proof (induction es)
  case Nil
  then show ?case by simp
next
  case (Cons e es)
  then obtain kvs where "e = JObj kvs"
    by (cases e) (auto simp: is_object_def)
  with Cons show ?case
    by (auto simp: is_chat_def split: option.splits)
qed

lemma snapshot_objects:
  "\<forall>a \<in> set arrivals. is_object (snd a) \<Longrightarrow> \<forall>e \<in> set (snapshot arrivals t). is_object e"
  by (auto simp: snapshot_def)

lemma chats_in_snapshot:
  "length (filter is_chat (snapshot arrivals t)) =
     length (filter (\<lambda>ta. ta \<le> t) (chat_times arrivals))"
  by (induction arrivals) (auto simp: snapshot_def chat_times_def)

text \<open>What a poll at time \<open>t\<close> counts: the chat events that have arrived by then.\<close>

lemma seen_at:
  assumes "\<forall>a \<in> set arrivals. is_object (snd a)"
  shows "chat_count_of (snapshot arrivals t) =
           Inr (length (filter (\<lambda>ta. ta \<le> t) (chat_times arrivals)))"
  using chat_count_of_objects [OF snapshot_objects [OF assms]] chats_in_snapshot
  by simp

lemma fourth_seen:
  assumes "t1 < t2" "t2 < t3" "t3 < (t4::int)"
  shows "4 \<le> length (filter (\<lambda>ta. ta \<le> t) [t1, t2, t3, t4]) \<longleftrightarrow> t4 \<le> t"
  using assms by auto

text \<open>
  The loop entered at a time before the fourth chat event (or at its start): it runs
  until the first poll at or after \<open>t4\<close>, which comes less than five seconds after \<open>t4\<close>.
\<close>

lemma quorum_loop:
  assumes objs: "\<forall>a \<in> set arrivals. is_object (snd a)"
    and chats: "chat_times arrivals = [t1, t2, t3, t4]"
    and order: "t1 < t2" "t2 < t3" "t3 < t4"
    and inside: "start \<le> t4" "t4 \<le> start + timeout"
    and lag: "\<forall>t. lag t < 3000"
    and inv: "now < t4 \<or> now = start"
  shows "\<exists>x. collection_loop lag arrivals start now = Inr x \<and> stopped_by x = Quorum
           \<and> t4 \<le> noticed_at x \<and> noticed_at x < t4 + 5000"
  using inv
proof (induction "nat (start + timeout - now)" arbitrary: now rule: less_induct)
  case less
  let ?woke = "sleep lag 2000 now"
  have guard: "now - start < timeout"
    using less.prems inside by (auto simp: timeout_def)
  have "lag now < 3000"
    using lag by simp
  then have woke: "now + 2000 \<le> ?woke" "?woke < now + 5000"
    by (simp_all add: sleep_def)
  have seen: "chat_count_of (snapshot arrivals ?woke) =
      Inr (length (filter (\<lambda>ta. ta \<le> ?woke) [t1, t2, t3, t4]))"
    using seen_at [OF objs] chats by simp
  show ?case
  proof (cases "t4 \<le> ?woke")
    case True
    then have "4 \<le> length (filter (\<lambda>ta. ta \<le> ?woke) [t1, t2, t3, t4])"
      using fourth_seen [OF order] by simp
    with guard seen have "collection_loop lag arrivals start now =
        Inr \<lparr>stopped_by = Quorum, noticed_at = ?woke, left_at = sleep lag 5000 ?woke\<rparr>"
      by (subst collection_loop.simps) (simp add: Let_def)
    moreover have "?woke < t4 + 5000"
      using woke less.prems inside by auto
    ultimately show ?thesis
      using True by simp
  next
    case False
    then have "\<not> 4 \<le> length (filter (\<lambda>ta. ta \<le> ?woke) [t1, t2, t3, t4])"
      using fourth_seen [OF order] by simp
    with guard seen have step:
      "collection_loop lag arrivals start now = collection_loop lag arrivals start ?woke"
      by (subst collection_loop.simps) (simp add: Let_def)
    have "nat (start + timeout - ?woke) < nat (start + timeout - now)"
      using woke guard by simp
    moreover have "?woke < t4 \<or> ?woke = start"
      using False by simp
    ultimately show ?thesis
      using less.hyps step by simp
  qed
qed

text \<open>
  With fewer than four chat events in the whole stream no poll finds the quorum, and the
  loop is left at the first wake-up at or after the budget.
\<close>

lemma never_quorum:
  assumes "\<forall>a \<in> set arrivals. is_object (snd a)" and "length (chat_times arrivals) < 4"
  shows "\<exists>n. chat_count_of (snapshot arrivals t) = Inr n \<and> \<not> 4 \<le> n"
proof -
  have "length (filter (\<lambda>ta. ta \<le> t) (chat_times arrivals)) \<le> length (chat_times arrivals)"
    by (rule length_filter_le)
  with assms(2) have "\<not> 4 \<le> length (filter (\<lambda>ta. ta \<le> t) (chat_times arrivals))"
    by linarith
  with seen_at [OF assms(1), of t] show ?thesis by simp
qed

lemma timeout_loop:
  assumes objs: "\<forall>a \<in> set arrivals. is_object (snd a)"
    and few: "length (chat_times arrivals) < 4"
    and lag: "\<forall>t. lag t \<le> late"
    and inv: "now < start + timeout + 2000 + int late"
  shows "\<exists>x. collection_loop lag arrivals start now = Inr x \<and> stopped_by x = HardTimeout
           \<and> noticed_at x = left_at x
           \<and> start + timeout \<le> left_at x \<and> left_at x < start + timeout + 2000 + int late"
  using inv
proof (induction "nat (start + timeout - now)" arbitrary: now rule: less_induct)
  case less
  let ?woke = "sleep lag 2000 now"
  show ?case
  proof (cases "now - start < timeout")
    case True
    have "lag now \<le> late"
      using lag by simp
    then have woke: "now + 2000 \<le> ?woke" "?woke \<le> now + 2000 + int late"
      by (simp_all add: sleep_def)
    from never_quorum [OF objs few, of ?woke] True have step:
      "collection_loop lag arrivals start now = collection_loop lag arrivals start ?woke"
      by (subst collection_loop.simps) (auto simp: Let_def)
    have "nat (start + timeout - ?woke) < nat (start + timeout - now)"
      using woke True by simp
    moreover have "?woke < start + timeout + 2000 + int late"
      using woke True by simp
    ultimately show ?thesis
      using less.hyps step by simp
  next
    case False
    then have "collection_loop lag arrivals start now =
        Inr \<lparr>stopped_by = HardTimeout, noticed_at = now, left_at = now\<rparr>"
      by (subst collection_loop.simps) simp
    with False less.prems show ?thesis by simp
  qed
qed

text \<open>
  On a clock that is never late the wake-ups are the multiples of two seconds after the
  start, and the budget is one of them.
\<close>

lemma timeout_loop_exact:
  assumes objs: "\<forall>a \<in> set arrivals. is_object (snd a)"
    and few: "length (chat_times arrivals) < 4"
    and lag: "\<forall>t. lag t = 0"
    and inv: "now - start \<le> timeout" "(now - start) mod 2000 = 0"
  shows "\<exists>x. collection_loop lag arrivals start now = Inr x \<and> left_at x = start + timeout"
  using inv
proof (induction "nat (start + timeout - now)" arbitrary: now rule: less_induct)
  case less
  let ?woke = "sleep lag 2000 now"
  show ?case
  proof (cases "now - start < timeout")
    case True
    have woke: "?woke = now + 2000"
      using lag by (simp add: sleep_def)
    from never_quorum [OF objs few, of ?woke] True have step:
      "collection_loop lag arrivals start now = collection_loop lag arrivals start ?woke"
      by (subst collection_loop.simps) (auto simp: Let_def)
    obtain k where k: "now - start = 2000 * k"
      using less.prems(2) by (auto simp: mod_eq_0_iff_dvd)
    have smaller: "nat (start + timeout - ?woke) < nat (start + timeout - now)"
      using woke True by simp
    have within: "?woke - start \<le> timeout"
      using woke True k by (simp add: timeout_def)
    have "?woke - start = 2000 * (k + 1)"
      using woke k by simp
    then have "(?woke - start) mod 2000 = 0"
      by simp
    with smaller within show ?thesis
      using less.hyps step by simp
  next
    case False
    then have "collection_loop lag arrivals start now =
        Inr \<lparr>stopped_by = HardTimeout, noticed_at = now, left_at = now\<rparr>"
      by (subst collection_loop.simps) simp
    with False less.prems show ?thesis by simp
  qed
qed

text \<open>
  C5, as stated: for every stream with exactly four chat events, at \<open>t1 < t2 < t3 < t4\<close>,
  the loop's stop condition first holds at a time from \<open>t4\<close> on. With the four events
  after the sixty seconds (times in milliseconds from the start of the loop, the clock
  never late) the loop is left at 60000, before \<open>t4 = 64000\<close>, and never sees the quorum.
\<close>

theorem quorum_after_budget_counterexample:
  "collect on_time
     [(61000, JObj [(''event_type'', JStr ''public.chat'')]),
      (62000, JObj [(''event_type'', JStr ''public.chat'')]),
      (63000, JObj [(''event_type'', JStr ''public.chat'')]),
      (64000, JObj [(''event_type'', JStr ''public.chat'')])] 0
   = Inr \<lparr>stopped_by = HardTimeout, noticed_at = 60000, left_at = 60000\<rparr>
   \<and> chat_times
     [(61000, JObj [(''event_type'', JStr ''public.chat'')]),
      (62000, JObj [(''event_type'', JStr ''public.chat'')]),
      (63000, JObj [(''event_type'', JStr ''public.chat'')]),
      (64000, JObj [(''event_type'', JStr ''public.chat'')])]
   = [61000, 62000, 63000, 64000]"
  by code_simp

text \<open>
  C5, amended: for every stream of Game Events (JSON objects) with exactly four chat
  events, at \<open>t1 < t2 < t3 < t4\<close>, where \<open>t4\<close> is not before the start of the loop and not
  after the sixty-second budget, and with every sleep less than three seconds late (five
  seconds of grace less the two of the polling interval), the loop ends by the quorum, and
  the poll that first finds the quorum is at a time \<open>\<ge> t4\<close> and \<open>< t4 + 5000\<close>.
\<close>

theorem quorum_noticed_within_grace:
  assumes "\<forall>a \<in> set arrivals. is_object (snd a)"
    and "chat_times arrivals = [t1, t2, t3, t4]"
    and "t1 < t2" "t2 < t3" "t3 < t4"
    and "start \<le> t4" "t4 \<le> start + timeout"
    and "\<forall>t. lag t < 3000"
  shows "\<exists>x. collect lag arrivals start = Inr x \<and> stopped_by x = Quorum
           \<and> t4 \<le> noticed_at x \<and> noticed_at x < t4 + 5000"
  unfolding collect_def
  using assms by (intro quorum_loop) simp_all

theorem quorum_noticed_within_grace_witness:
  "\<exists>x. collect on_time
          [(1000, JObj [(''event_type'', JStr ''public.chat'')]),
           (3000, JObj [(''event_type'', JStr ''public.chat'')]),
           (4500, JObj [(''event_type'', JStr ''game.started'')]),
           (5000, JObj [(''event_type'', JStr ''public.chat'')]),
           (7500, JObj [(''event_type'', JStr ''public.chat'')])] 0 = Inr x
        \<and> stopped_by x = Quorum \<and> 7500 \<le> noticed_at x \<and> noticed_at x < 12500"
  using quorum_noticed_within_grace
    [of "[(1000, JObj [(''event_type'', JStr ''public.chat'')]),
          (3000, JObj [(''event_type'', JStr ''public.chat'')]),
          (4500, JObj [(''event_type'', JStr ''game.started'')]),
          (5000, JObj [(''event_type'', JStr ''public.chat'')]),
          (7500, JObj [(''event_type'', JStr ''public.chat'')])]"
        1000 3000 5000 7500 0 on_time]
  by (simp add: is_object_def chat_times_def is_chat_def on_time_def timeout_def)

text \<open>
  C6: for every stream of Game Events with fewer than four chat events (the script knows
  no terminal event), the loop ends by the time-out, without an exception: not before the
  budget, less than one polling interval plus the lateness of the clock after it, and at
  the budget exactly on a clock that is never late.
\<close>

theorem timeout_exit_at_budget:
  assumes "\<forall>a \<in> set arrivals. is_object (snd a)"
    and "length (chat_times arrivals) < 4"
    and "\<forall>t. lag t \<le> late"
  shows "\<exists>x. collect lag arrivals start = Inr x \<and> stopped_by x = HardTimeout
           \<and> start + timeout \<le> left_at x
           \<and> left_at x < start + timeout + 2000 + int late
           \<and> (late = 0 \<longrightarrow> left_at x = start + timeout)"
proof -
  have "start < start + timeout + 2000 + int late"
    by (simp add: timeout_def)
  from timeout_loop [OF assms this] obtain x where
    x: "collection_loop lag arrivals start start = Inr x" "stopped_by x = HardTimeout"
       "start + timeout \<le> left_at x" "left_at x < start + timeout + 2000 + int late"
    by blast
  have "left_at x = start + timeout" if "late = 0"
  proof -
    from that assms(3) have "\<forall>t. lag t = 0"
      by simp
    from timeout_loop_exact [OF assms(1,2) this, of start start] x(1) show ?thesis
      by (auto simp: timeout_def)
  qed
  with x show ?thesis
    by (simp add: collect_def)
qed

theorem timeout_exit_at_budget_witness:
  "\<exists>x. collect on_time
          [(1000, JObj [(''event_type'', JStr ''public.chat'')]),
           (2500, JObj [(''event_type'', JStr ''game.started'')])] 0 = Inr x
        \<and> stopped_by x = HardTimeout \<and> left_at x = 60000"
  using timeout_exit_at_budget
    [of "[(1000, JObj [(''event_type'', JStr ''public.chat'')]),
          (2500, JObj [(''event_type'', JStr ''game.started'')])]"
        on_time 0 0]
  by (auto simp: is_object_def chat_times_def is_chat_def on_time_def timeout_def)

section \<open>Properties of the subscription handshake\<close>

lemma envelope_kinds:
  "envelope_kind (subscribe_envelope rid) = JStr ''subscribe''"
  "envelope_kind (command_envelope rid) = JStr ''command''"
  "envelope_kind (debug_subscribe rid) = JStr ''subscribe''"
  "envelope_kind (debug_command rid) = JStr ''command''"
  by (simp_all add: envelope_kind_def subscribe_envelope_def command_envelope_def
      debug_subscribe_def debug_command_def)

lemma on_open_wire:
  "snd (on_open lag rid (now, wire)) =
     wire @ [Sent (subscribe_envelope rid), Sent (command_envelope rid)]"
  by (simp add: on_open_def ws_send_def Let_def)

lemma acknowledged_after_received:
  "commands_acknowledged acked (map Received evs @ [Sent cmd]) =
     (envelope_kind cmd = JStr ''command''
        \<longrightarrow> acked \<or> (\<exists>m \<in> set evs. envelope_kind m = JStr ''subscribed''))"
  by (induction evs arbitrary: acked) auto

lemma py_get_type_is_kind: "py_get msg ''type'' JNull = Inr ty \<Longrightarrow> envelope_kind msg = ty"
  by (cases msg) (auto simp: envelope_kind_def split: option.splits)

text \<open>
  In \<^verbatim>\<open>test_debug.py\<close> the drain loop reaches the acknowledgment when every frame before it
  decodes to a JSON object.
\<close>

lemma drain_reaches_ack:
  assumes "\<forall>r \<in> set pre. \<exists>raw msg. r = Inr raw \<and> loads raw = Some msg \<and> is_object msg"
    and "loads ackraw = Some ack" and "envelope_kind ack = JStr ''subscribed''"
  shows "\<exists>m \<in> set (drain loads (pre @ Inr ackraw # rest) evs).
           envelope_kind m = JStr ''subscribed''"
  using assms
proof (induction pre arbitrary: evs)
  case Nil
  then show ?case
    by (cases ack) (auto simp: envelope_kind_def split: option.splits sum.splits)
next
  case (Cons r pre)
  then obtain raw msg where r: "r = Inr raw" "loads raw = Some msg" "is_object msg"
    by auto
  then obtain kvs where msg: "msg = JObj kvs"
    by (cases msg) (auto simp: is_object_def)
  show ?case
  proof (cases "py_get msg ''type'' JNull = Inr (JStr ''subscribed'')")
    case True
    then have "envelope_kind msg = JStr ''subscribed''"
      by (rule py_get_type_is_kind)
    with True r show ?thesis by auto
  next
    case False
    with r msg Cons show ?thesis by (auto split: option.splits)
  qed
qed

text \<open>
  C7, as stated: no \<^verbatim>\<open>command\<close> envelope is sent before a \<^verbatim>\<open>subscribed\<close> envelope has
  been received. \<^verbatim>\<open>on_open\<close> of fulltest.py, run on a connection on which nothing has been
  received, sends the command.
\<close>

theorem command_before_ack_counterexample:
  "snd (on_open on_time (JStr ''r1'') (0, []))
     = [Sent (subscribe_envelope (JStr ''r1'')), Sent (command_envelope (JStr ''r1''))]
   \<and> \<not> commands_acknowledged False (snd (on_open on_time (JStr ''r1'') (0, [])))"
  by (simp add: on_open_def ws_send_def subscribe_envelope_def command_envelope_def
      envelope_kind_def)

text \<open>
  C7, amended: \<^verbatim>\<open>on_open\<close> of fulltest.py sends the \<^verbatim>\<open>subscribe\<close> envelope and then,
  after its sleep and whatever has been received, the \<^verbatim>\<open>command\<close> envelope: the command
  always follows the subscribe, and no acknowledgment is waited for or looked at. In
  \<^verbatim>\<open>test_debug.py\<close> the command is sent when the drain loop has ended, and it follows an
  acknowledgment exactly when the loop took a \<^verbatim>\<open>subscribed\<close> envelope in.
\<close>

theorem command_follows_subscribe:
  "snd (on_open lag rid (now, wire)) =
     wire @ [Sent (subscribe_envelope rid), Sent (command_envelope rid)]
   \<and> commands_after_subscribe False (snd (on_open lag rid (now, [])))
   \<and> (commands_acknowledged False (debug_handshake loads rid incoming)
        \<longleftrightarrow> (\<exists>m \<in> set (drain loads incoming []). envelope_kind m = JStr ''subscribed''))"
proof -
  have "commands_after_subscribe False (snd (on_open lag rid (now, [])))"
    by (simp add: on_open_wire envelope_kinds)
  moreover have "commands_acknowledged False (debug_handshake loads rid incoming)
        \<longleftrightarrow> (\<exists>m \<in> set (drain loads incoming []). envelope_kind m = JStr ''subscribed'')"
    by (simp add: debug_handshake_def ws_send_def envelope_kinds acknowledged_after_received
        Let_def)
  ultimately show ?thesis
    by (simp add: on_open_wire)
qed

theorem command_follows_subscribe_witness:
  "snd (on_open on_time (JStr ''r1'') (0, [Received (JObj [(''type'', JStr ''error'')])]))
     = [Received (JObj [(''type'', JStr ''error'')]),
        Sent (subscribe_envelope (JStr ''r1'')), Sent (command_envelope (JStr ''r1''))]
   \<and> commands_acknowledged False
       (debug_handshake (map_of [(''ack'', JObj [(''type'', JStr ''subscribed'')])])
          (JStr ''r1'') [Inr ''ack''])"
  using command_follows_subscribe
    [of on_time "JStr ''r1''" 0 "[Received (JObj [(''type'', JStr ''error'')])]"
        "map_of [(''ack'', JObj [(''type'', JStr ''subscribed'')])]" "[Inr ''ack'']"]
  by (simp add: envelope_kind_def)

section \<open>Properties of the provider calls\<close>

lemma record_keys:
  "map_of (success_record t l k) ''success'' = Some (JBool True)"
  "map_of (success_record t l k) ''latency'' = Some (JFloat l)"
  "map_of (success_record t l k) ''text'' = Some t"
  "map_of (success_record t l k) ''tokens'' = Some k"
  "map_of (failure_record e l c) ''success'' = Some (JBool False)"
  "map_of (failure_record e l c) ''latency'' = Some (JFloat l)"
  "map_of (failure_record e l c) ''error'' = Some (JStr e)"
  by (simp_all add: success_record_def failure_record_def)

text \<open>
  Apart from an HTTP error whose body cannot be read or decoded, every outcome of the call
  gives a record with \<^verbatim>\<open>success\<close> and \<^verbatim>\<open>latency\<close>, and with \<^verbatim>\<open>text\<close> and \<^verbatim>\<open>tokens\<close> on
  success.
\<close>

lemma test_gemini_returns_otherwise:
  assumes "\<And>code ex shown. outcome \<noteq> HTTPError code (Some (Inl ex)) shown"
  shows "\<exists>r. test_gemini exc_str latency outcome = Inr r
           \<and> map_of r ''success'' \<noteq> None \<and> map_of r ''latency'' = Some (JFloat latency)
           \<and> (map_of r ''success'' = Some (JBool True)
                \<longrightarrow> map_of r ''text'' \<noteq> None \<and> map_of r ''tokens'' \<noteq> None)"
proof (cases outcome)
  case (Responded r)
  then show ?thesis
    by (auto simp: test_gemini_def record_keys split: sum.splits)
next
  case (HTTPError code body shown)
  with assms show ?thesis
    by (cases body) (auto simp: test_gemini_def record_keys split: sum.splits)
next
  case (OtherError ex)
  then show ?thesis by (simp add: test_gemini_def record_keys)
qed

lemma test_deepseek_returns_otherwise:
  assumes "\<And>code ex shown. outcome \<noteq> HTTPError code (Some (Inl ex)) shown"
  shows "\<exists>r. test_deepseek exc_str latency outcome = Inr r
           \<and> map_of r ''success'' \<noteq> None \<and> map_of r ''latency'' = Some (JFloat latency)
           \<and> (map_of r ''success'' = Some (JBool True)
                \<longrightarrow> map_of r ''text'' \<noteq> None \<and> map_of r ''tokens'' \<noteq> None)"
proof (cases outcome)
  case (Responded r)
  then show ?thesis
    by (auto simp: test_deepseek_def record_keys split: sum.splits)
next
  case (HTTPError code body shown)
  with assms show ?thesis
    by (cases body) (auto simp: test_deepseek_def record_keys split: sum.splits)
next
  case (OtherError ex)
  then show ?thesis by (simp add: test_deepseek_def record_keys)
qed

lemma http_error_record:
  "test_gemini exc_str latency (HTTPError 503 (Some (Inr ''busy'')) shown)
     = Inr (failure_record ''HTTP 503: busy'' latency 503)"
  by (simp add: test_gemini_def)

text \<open>
  C10 (a defect of the code): on an HTTP error whose body cannot be read or is not UTF-8,
  \<^verbatim>\<open>e.read().decode('utf-8')\<close> raises inside the \<^verbatim>\<open>except urllib.error.HTTPError\<close>
  handler, where the \<^verbatim>\<open>except Exception\<close> clause below no longer applies: the exception
  leaves \<^verbatim>\<open>test_gemini\<close> and \<^verbatim>\<open>test_deepseek\<close>, and no record is returned.
\<close>

theorem undecodable_error_body_escapes:
  "test_gemini exc_str latency (HTTPError 500 (Some (Inl UnicodeDecodeError)) shown)
     = Inl UnicodeDecodeError
   \<and> test_deepseek exc_str latency (HTTPError 500 (Some (Inl UnicodeDecodeError)) shown)
     = Inl UnicodeDecodeError"
  by (simp add: test_gemini_def test_deepseek_def)

end
